theory Spec2Isabelle
  imports Complex_Main "HOL-Library.AList"
begin

section \<open>The mock v0 API of the registrar: \<^verbatim>\<open>registrar/apps/api/v0/views.py\<close>\<close>

subsection \<open>Fixture data\<close>

text \<open>
  The views read four tables of \<^verbatim>\<open>registrar.apps.api.v0.data\<close>, a module that is not among
  the sources. The tables are therefore parameters of the model: a value of type
  \<open>v0_data\<close> holds the ones the modelled views read, as dictionaries. Of an organization
  and a program only the attributes the views touch are kept; both have a \<^verbatim>\<open>key\<close>, and the
  one of an organization is written \<open>organization.key\<close>.
\<close>

record organization =
  key :: string
  metadata_readable :: bool

record program =
  key :: string
  managing_organization :: organization

record v0_data =
  FAKE_ORG_DICT :: "string \<rightharpoonup> organization"
  FAKE_ORG_PROGRAMS :: "string \<rightharpoonup> program list"
  FAKE_PROGRAM_DICT :: "string \<rightharpoonup> program"

subsection \<open>Parsed JSON and the Python operations on it\<close>

text \<open>
  \<^verbatim>\<open>request.data\<close> is whatever the body parsed to: \<open>None\<close>, a boolean, a number, a string, a
  list or a dictionary, nested at will. A number is held by its value, which is how Python
  compares and hashes an \<^verbatim>\<open>int\<close> and a finite \<^verbatim>\<open>float\<close>. A dictionary is the association
  list of its items, read with \<open>map_of\<close>.
\<close>

datatype json =
    JNull
  | JBool bool
  | JNum rat
  | JStr string
  | JArr "json list"
  | JObj "(string \<times> json) list"

text \<open>
  The exceptions that occur: the three the views raise themselves, and the two that the
  subscripts of the views can raise.
\<close>

datatype exn = PermissionDenied | Http404 | ValidationError | KeyError | TypeError

text \<open>
  \<^verbatim>\<open>x[name]\<close> for a string \<^verbatim>\<open>name\<close>: the value of a dictionary under that key, \<open>KeyError\<close>
  when the dictionary has no such key, and \<open>TypeError\<close> for every other value (a list and
  a string take integer indices only, the rest takes no subscript).
\<close>

fun getitem :: "json \<Rightarrow> string \<Rightarrow> exn + json" where
  "getitem (JObj items) name =
     (case map_of items name of None \<Rightarrow> Inl KeyError | Some v \<Rightarrow> Inr v)"
| "getitem _ name = Inl TypeError"

text \<open>
  The keys of the dictionary \<^verbatim>\<open>response\<close>. A list and a dictionary are unhashable: used as
  a key they raise \<open>TypeError\<close>. Keys are equal when Python's \<^verbatim>\<open>==\<close> says so: \<^verbatim>\<open>True\<close> and
  \<^verbatim>\<open>False\<close> are the numbers 1 and 0, numbers are equal by value, and \<open>None\<close>, numbers and
  strings are apart from each other.
\<close>

datatype pykey = NoneKey | NumKey rat | StrKey string

fun as_key :: "json \<Rightarrow> exn + pykey" where
  "as_key JNull = Inr NoneKey"
| "as_key (JBool b) = Inr (NumKey (if b then 1 else 0))"
| "as_key (JNum n) = Inr (NumKey n)"
| "as_key (JStr s) = Inr (StrKey s)"
| "as_key (JArr xs) = Inl TypeError"
| "as_key (JObj items) = Inl TypeError"

text \<open>
  \<^verbatim>\<open>response[k] = v\<close> on the dictionary of results, an association list in insertion order:
  \<open>AList.update\<close> overwrites the value of a key that is stored and puts a new key last.
\<close>

definition setitem :: "(pykey \<times> string) list \<Rightarrow> json \<Rightarrow> string \<Rightarrow> exn + (pykey \<times> string) list" where
  "setitem response k v =
     (case as_key k of Inl e \<Rightarrow> Inl e | Inr k' \<Rightarrow> Inr (AList.update k' v response))"

subsection \<open>Responses and their HTTP status\<close>

text \<open>
  The \<^verbatim>\<open>Response(data, status)\<close> objects the views return: the data is a literal text or
  the dictionary of enrollment results.
\<close>

datatype response_data = Text string | Dict "(pykey \<times> string) list"

datatype response = Response response_data "nat option"

definition HTTP_207_MULTI_STATUS :: nat where
  "HTTP_207_MULTI_STATUS = 207"

definition HTTP_413_REQUEST_ENTITY_TOO_LARGE :: nat where
  "HTTP_413_REQUEST_ENTITY_TOO_LARGE = 413"

definition HTTP_422_UNPROCESSABLE_ENTITY :: nat where
  "HTTP_422_UNPROCESSABLE_ENTITY = 422"

text \<open>
  What the client sees of an exception is decided by the REST framework the views are
  built on, not by the views: its exception handler answers Django's \<open>Http404\<close> with 404
  and \<open>PermissionDenied\<close> with 403, and an exception of \<^verbatim>\<open>rest_framework.exceptions\<close> with the
  \<^verbatim>\<open>status_code\<close> of its class, which is 400 for \<open>ValidationError\<close>. Any other exception is
  not handled and becomes a server error, 500. A response built with the status \<open>None\<close> is
  sent with 200.
\<close>

fun exception_status :: "exn \<Rightarrow> nat" where
  "exception_status PermissionDenied = 403"
| "exception_status Http404 = 404"
| "exception_status ValidationError = 400"
| "exception_status KeyError = 500"
| "exception_status TypeError = 500"

fun status_code :: "exn + response \<Rightarrow> nat" where
  "status_code (Inl e) = exception_status e"
| "status_code (Inr (Response _ None)) = 200"
| "status_code (Inr (Response _ (Some s))) = s"

subsection \<open>\<^verbatim>\<open>MockProgramListView.get_queryset\<close>\<close>

text \<open>
  \<open>GET\<close> is the dictionary of query parameters. \<^verbatim>\<open>not org_key\<close> holds of \<open>None\<close> and of the
  empty string; an organization found in the table is an object, hence true.
\<close>

definition get_queryset :: "v0_data \<Rightarrow> (string \<rightharpoonup> string) \<Rightarrow> exn + program list" where
  "get_queryset d GET =
     (case GET ''org'' of
        None \<Rightarrow> Inl PermissionDenied
      | Some org_key \<Rightarrow>
          if org_key = [] then Inl PermissionDenied
          else (case FAKE_ORG_DICT d org_key of
                  None \<Rightarrow> Inl Http404
                | Some org \<Rightarrow>
                    if \<not> metadata_readable org then Inl PermissionDenied
                    else (case FAKE_ORG_PROGRAMS d (organization.key org) of
                            None \<Rightarrow> Inl KeyError
                          | Some programs \<Rightarrow> Inr programs)))"

text \<open>
  The status of the listing request: that of the exception \<open>get_queryset\<close> raised, or 200
  with the serialized programs.
\<close>

definition list_status :: "v0_data \<Rightarrow> (string \<rightharpoonup> string) \<Rightarrow> nat" where
  "list_status d GET =
     (case get_queryset d GET of Inl e \<Rightarrow> exception_status e | Inr programs \<Rightarrow> 200)"

subsection \<open>\<^verbatim>\<open>MockProgramSpecificViewMixin.program\<close>\<close>

definition program :: "v0_data \<Rightarrow> string \<Rightarrow> exn + program" where
  "program d program_key =
     (case FAKE_PROGRAM_DICT d program_key of
        None \<Rightarrow> Inl Http404
      | Some p \<Rightarrow> Inr p)"

subsection \<open>The enrollment serializer\<close>

text \<open>
  Modelled from the spec: \<^verbatim>\<open>RequestedLearnerProgramEnrollmentSerializer\<close> of
  \<^verbatim>\<open>registrar.apps.api.serializers\<close>, a module that is not among the sources, and the
  enumeration of statuses it allows, which is the parameter \<open>statuses\<close>. The specification
  (4.3, Enrollment Request Validator) says: \<^verbatim>\<open>status\<close> present and a member of the allowed
  enumeration, otherwise the item fails with InvalidStatus; \<^verbatim>\<open>student_key\<close> present and
  a non-empty string, otherwise it fails with MissingStudentKey; on success the output is
  the pair of the \<^verbatim>\<open>student_key\<close> and the \<^verbatim>\<open>status\<close>. The view asks the serializer three
  things: \<^verbatim>\<open>is_valid()\<close>, the validated \<^verbatim>\<open>data\<close>, and whether \<^verbatim>\<open>'status'\<close> is a key of
  \<^verbatim>\<open>errors\<close>. So a failure is the list of the fields that failed, and a success is the
  validated pair. A value that is not a dictionary has neither field.
\<close>

fun field :: "json \<Rightarrow> string \<Rightarrow> json option" where
  "field (JObj items) name = map_of items name"
| "field _ name = None"

definition status_errors :: "string list \<Rightarrow> json \<Rightarrow> string list" where
  "status_errors statuses enrollee =
     (case field enrollee ''status'' of
        Some (JStr s) \<Rightarrow> if s \<in> set statuses then [] else [''status'']
      | _ \<Rightarrow> [''status''])"

definition student_key_errors :: "json \<Rightarrow> string list" where
  "student_key_errors enrollee =
     (case field enrollee ''student_key'' of
        Some (JStr k) \<Rightarrow> if k = [] then [''student_key''] else []
      | _ \<Rightarrow> [''student_key''])"

definition serializer :: "string list \<Rightarrow> json \<Rightarrow> string list + string \<times> string" where
  "serializer statuses enrollee =
     (case (field enrollee ''student_key'', field enrollee ''status'') of
        (Some (JStr k), Some (JStr s)) \<Rightarrow>
          if status_errors statuses enrollee @ student_key_errors enrollee = []
          then Inr (k, s)
          else Inl (status_errors statuses enrollee @ student_key_errors enrollee)
      | _ \<Rightarrow> Inl (status_errors statuses enrollee @ student_key_errors enrollee))"

definition is_valid :: "string list \<Rightarrow> json \<Rightarrow> bool" where
  "is_valid statuses enrollee = (case serializer statuses enrollee of Inl errors \<Rightarrow> False | Inr data \<Rightarrow> True)"

subsection \<open>\<^verbatim>\<open>MockProgramEnrollmentView.post\<close>\<close>

text \<open>
  The \<^verbatim>\<open>try\<close> block of the branch of an invalid item (lines 180 to 184, up to the
  assignment to \<^verbatim>\<open>response\<close>): the key is read from the submitted element, not from
  validated data, and is then used as a key of \<^verbatim>\<open>response\<close>. Either step can raise.
\<close>

definition record_failure :: "string list \<Rightarrow> json \<Rightarrow> (pykey \<times> string) list \<Rightarrow> exn + (pykey \<times> string) list" where
  "record_failure errors enrollee response =
     (if ''status'' \<in> set errors
      then (case getitem enrollee ''student_key'' of
              Inl e \<Rightarrow> Inl e
            | Inr k \<Rightarrow> setitem response k ''invalid-status'')
      else (case getitem enrollee ''student_key'' of
              Inl e \<Rightarrow> Inl e
            | Inr k \<Rightarrow> setitem response k ''internal-error''))"

text \<open>
  The body of the \<^verbatim>\<open>for\<close> loop, on the loop's state: the dictionary \<^verbatim>\<open>response\<close> and
  \<^verbatim>\<open>error_status\<close>. A pass ends the request (\<open>Inl\<close>) or goes on with the next state
  (\<open>Inr\<close>). It ends the request in two ways: \<^verbatim>\<open>except KeyError\<close> returns the response
  \<^verbatim>\<open>student_key required\<close>, and any other exception of the \<^verbatim>\<open>try\<close> block is not caught
  and leaves the view.
\<close>

type_synonym loop_state = "(pykey \<times> string) list \<times> nat option"

definition enroll :: "string list \<Rightarrow> json \<Rightarrow> loop_state \<Rightarrow> (exn + response) + loop_state" where
  "enroll statuses enrollee st =
     (case st of (response, error_status) \<Rightarrow>
        (case serializer statuses enrollee of
           Inr (student_key, status) \<Rightarrow>
             if StrKey student_key \<in> fst ` set response
             then Inr (AList.update (StrKey student_key) ''duplicated'' response, Some HTTP_207_MULTI_STATUS)
             else Inr (AList.update (StrKey student_key) status response, error_status)
         | Inl errors \<Rightarrow>
             (case record_failure errors enrollee response of
                Inl KeyError \<Rightarrow>
                  Inl (Inr (Response (Text ''student_key required'') (Some HTTP_422_UNPROCESSABLE_ENTITY)))
              | Inl e \<Rightarrow> Inl (Inl e)
              | Inr response' \<Rightarrow> Inr (response', Some HTTP_207_MULTI_STATUS))))"

fun enroll_all :: "string list \<Rightarrow> json list \<Rightarrow> loop_state \<Rightarrow> (exn + response) + loop_state" where
  "enroll_all statuses [] st = Inr st"
| "enroll_all statuses (enrollee # rest) st =
     (case enroll statuses enrollee st of
        Inl ended \<Rightarrow> Inl ended
      | Inr st' \<Rightarrow> enroll_all statuses rest st')"

definition post :: "string list \<Rightarrow> v0_data \<Rightarrow> string \<Rightarrow> json \<Rightarrow> exn + response" where
  "post statuses d program_key data =
     (case program d program_key of
        Inl e \<Rightarrow> Inl e
      | Inr p \<Rightarrow>
          if \<not> metadata_readable (managing_organization p) then Inl PermissionDenied
          else (case data of
                  JArr enrollees \<Rightarrow>
                    if length enrollees > 25
                    then Inr (Response (Text ''enrollement limit 25'') (Some HTTP_413_REQUEST_ENTITY_TOO_LARGE))
                    else (case enroll_all statuses enrollees ([], None) of
                            Inl ended \<Rightarrow> ended
                          | Inr (response, error_status) \<Rightarrow> Inr (Response (Dict response) error_status))
                | _ \<Rightarrow> Inl ValidationError))"

subsection \<open>The key under which a submission is recorded\<close>

text \<open>
  For stating properties: the key of \<^verbatim>\<open>response\<close> that a list element writes to, which is
  its \<^verbatim>\<open>student_key\<close> as a dictionary key. There is none when the element is not a
  dictionary, when it has no \<^verbatim>\<open>student_key\<close>, and when its \<^verbatim>\<open>student_key\<close> is a list or a
  dictionary.
\<close>

definition recorded_key :: "json \<Rightarrow> pykey option" where
  "recorded_key enrollee =
     (case getitem enrollee ''student_key'' of
        Inl e \<Rightarrow> None
      | Inr k \<Rightarrow> (case as_key k of Inl e \<Rightarrow> None | Inr k' \<Rightarrow> Some k'))"

subsection \<open>A concrete deployment, for evaluating the views\<close>

text \<open>
  One readable and one unreadable organization, a program of each, and an enumeration that
  allows \<^verbatim>\<open>enrolled\<close> and \<^verbatim>\<open>pending\<close>.
\<close>

definition readable_org :: organization where
  "readable_org = \<lparr>organization.key = ''u-perezburgh'', metadata_readable = True\<rparr>"

definition hidden_org :: organization where
  "hidden_org = \<lparr>organization.key = ''brianchester-college'', metadata_readable = False\<rparr>"

definition open_program :: program where
  "open_program = \<lparr>key = ''open'', managing_organization = readable_org\<rparr>"

definition hidden_program :: program where
  "hidden_program = \<lparr>key = ''hidden'', managing_organization = hidden_org\<rparr>"

definition sample_data :: v0_data where
  "sample_data =
     \<lparr>FAKE_ORG_DICT = [''u-perezburgh'' \<mapsto> readable_org, ''brianchester-college'' \<mapsto> hidden_org],
      FAKE_ORG_PROGRAMS = [''u-perezburgh'' \<mapsto> [open_program], ''brianchester-college'' \<mapsto> [hidden_program]],
      FAKE_PROGRAM_DICT = [''open'' \<mapsto> open_program, ''hidden'' \<mapsto> hidden_program]\<rparr>"

definition sample_statuses :: "string list" where
  "sample_statuses = [''enrolled'', ''pending'']"

definition submission :: "string \<Rightarrow> string \<Rightarrow> json" where
  "submission k s = JObj [(''student_key'', JStr k), (''status'', JStr s)]"


section \<open>Properties\<close>

subsection \<open>The serializer and one pass of the loop\<close>

lemmas http_defs = HTTP_207_MULTI_STATUS_def HTTP_413_REQUEST_ENTITY_TOO_LARGE_def
  HTTP_422_UNPROCESSABLE_ENTITY_def

lemma getitem_field: "getitem x name = Inr v \<longleftrightarrow> field x name = Some v"
  by (cases x) (auto split: option.splits)

lemma serializer_Inr_iff:
  "serializer statuses x = Inr (k, s) \<longleftrightarrow>
     field x ''student_key'' = Some (JStr k) \<and> k \<noteq> [] \<and>
     field x ''status'' = Some (JStr s) \<and> s \<in> set statuses"
  by (auto simp: serializer_def status_errors_def student_key_errors_def
      split: option.splits json.splits if_splits)

lemma is_valid_iff:
  "is_valid statuses x \<longleftrightarrow>
     (\<exists>k s. field x ''student_key'' = Some (JStr k) \<and> k \<noteq> [] \<and>
            field x ''status'' = Some (JStr s) \<and> s \<in> set statuses)"
  unfolding is_valid_def
  by (cases "serializer statuses x") (auto simp: serializer_Inr_iff[symmetric])

lemma serializer_Inl_status:
  "serializer statuses x = Inl errors \<Longrightarrow>
     ''status'' \<in> set errors \<longleftrightarrow> field x ''status'' \<notin> (\<lambda>s. Some (JStr s)) ` set statuses"
  by (auto simp: serializer_def status_errors_def student_key_errors_def
      split: option.splits json.splits if_splits)

lemma recorded_key_valid:
  "serializer statuses x = Inr (k, s) \<Longrightarrow> recorded_key x = Some (StrKey k)"
  by (cases x) (auto simp: recorded_key_def serializer_Inr_iff split: option.splits)

lemma recorded_key_string:
  "recorded_key x = Some (StrKey k) \<longleftrightarrow> field x ''student_key'' = Some (JStr k)"
proof (cases "getitem x ''student_key''")
  case (Inl e)
  then have "field x ''student_key'' \<noteq> Some (JStr k)" by (auto simp flip: getitem_field)
  with Inl show ?thesis by (simp add: recorded_key_def)
next
  case (Inr v)
  then have "field x ''student_key'' = Some v" by (simp add: getitem_field)
  with Inr show ?thesis by (cases v) (auto simp: recorded_key_def)
qed

lemma record_failure_key:
  "recorded_key x = Some k \<Longrightarrow>
   record_failure errors x r =
     Inr (AList.update k (if ''status'' \<in> set errors then ''invalid-status'' else ''internal-error'') r)"
  by (auto simp: recorded_key_def record_failure_def setitem_def split: sum.splits)

lemma record_failure_no_key:
  "recorded_key x = None \<Longrightarrow>
   record_failure errors x r =
     Inl (if \<exists>items. x = JObj items \<and> map_of items ''student_key'' = None then KeyError else TypeError)"
  by (cases x)
     (auto simp: recorded_key_def record_failure_def setitem_def split: sum.splits option.splits
           elim: as_key.elims)

lemma enroll_valid:
  "serializer statuses x = Inr (k, s) \<Longrightarrow>
   enroll statuses x (r, e) =
     (if StrKey k \<in> fst ` set r then Inr (AList.update (StrKey k) ''duplicated'' r, Some 207)
      else Inr (AList.update (StrKey k) s r, e))"
  by (simp add: enroll_def http_defs)

lemma enroll_invalid:
  assumes "\<not> is_valid statuses x" "recorded_key x = Some k"
  shows "enroll statuses x (r, e) =
     Inr (AList.update k (if field x ''status'' \<notin> (\<lambda>s. Some (JStr s)) ` set statuses
                          then ''invalid-status'' else ''internal-error'') r, Some 207)"
proof -
  from assms(1) obtain errors where ser: "serializer statuses x = Inl errors"
    by (cases "serializer statuses x") (auto simp: is_valid_def)
  from serializer_Inl_status[OF ser] record_failure_key[of x k errors r] assms(2) ser
  show ?thesis by (simp add: enroll_def http_defs)
qed

lemma enroll_unrecorded:
  assumes "recorded_key x = None"
  shows "enroll statuses x st =
     (if \<exists>items. x = JObj items \<and> map_of items ''student_key'' = None
      then Inl (Inr (Response (Text ''student_key required'') (Some 422)))
      else Inl (Inl TypeError))"
proof -
  obtain r e where st: "st = (r, e)" by (cases st)
  obtain errors where ser: "serializer statuses x = Inl errors"
  proof (cases "serializer statuses x")
    case (Inr data)
    then have "recorded_key x \<noteq> None" by (cases data) (auto dest: recorded_key_valid)
    with assms show ?thesis by simp
  qed
  from record_failure_no_key[OF assms, of errors r] ser st
  show ?thesis by (simp add: enroll_def http_defs)
qed

lemma enroll_with_key:
  assumes "recorded_key x = Some k"
  shows "\<exists>v e'. enroll statuses x (r, e) = Inr (AList.update k v r, e') \<and> (e' = e \<or> e' = Some 207)"
proof (cases "serializer statuses x")
  case (Inl errors)
  then have "\<not> is_valid statuses x" by (simp add: is_valid_def)
  from enroll_invalid[OF this assms, of r e] show ?thesis by blast
next
  case (Inr data)
  obtain k' s where data: "data = (k', s)" by (cases data)
  with Inr assms have "k = StrKey k'" by (auto dest: recorded_key_valid)
  with Inr data show ?thesis by (auto simp: enroll_valid)
qed

lemma enroll_keys:
  assumes "enroll statuses x (r, e) = Inr (r', e')"
  shows "\<exists>k. recorded_key x = Some k \<and> fst ` set r' = insert k (fst ` set r)"
proof (cases "recorded_key x")
  case None
  from enroll_unrecorded[OF None, of statuses "(r, e)"] assms show ?thesis
    by (simp split: if_splits)
next
  case (Some k)
  from enroll_with_key[OF Some, of statuses r e] assms obtain v where "r' = AList.update k v r"
    by auto
  then show ?thesis using Some by (simp add: dom_update)
qed

lemma enroll_other_key:
  assumes "enroll statuses x (r, e) = Inr (r', e')" and "recorded_key x \<noteq> Some k"
  shows "map_of r' k = map_of r k"
proof -
  from enroll_keys[OF assms(1)] obtain k' where k': "recorded_key x = Some k'" by blast
  from enroll_with_key[OF k', of statuses r e] assms(1) obtain v where "r' = AList.update k' v r"
    by auto
  with assms(2) k' show ?thesis by (simp add: update_conv')
qed

lemma enroll_sticky:
  assumes "enroll statuses x (r, Some 207) = Inr (r', e')"
  shows "e' = Some 207"
proof -
  from enroll_keys[OF assms] obtain k where k: "recorded_key x = Some k" by blast
  from enroll_with_key[OF k, of statuses r "Some 207"] assms show ?thesis by auto
qed

lemma enroll_duplicated_only_valid:
  assumes step: "enroll statuses y (r1, e1) = Inr (r2, e2)"
    and new: "map_of r2 k = Some ''duplicated''" "map_of r1 k \<noteq> Some ''duplicated''"
  shows "is_valid statuses y \<and> recorded_key y = Some k"
proof -
  from enroll_keys[OF step] obtain k' where k': "recorded_key y = Some k'" by blast
  have same: "k' = k"
  proof (rule ccontr)
    assume "k' \<noteq> k"
    with k' have "recorded_key y \<noteq> Some k" by simp
    from enroll_other_key[OF step this] new show False by simp
  qed
  have "is_valid statuses y"
  proof (rule ccontr)
    assume inv: "\<not> is_valid statuses y"
    from enroll_invalid[OF inv k', of r1 e1] step same new(1)
    show False by (auto simp: update_conv' split: if_splits)
  qed
  with k' same show ?thesis by simp
qed

lemma enroll_ended:
  "enroll statuses x st = Inl ended \<Longrightarrow>
   ended = Inl TypeError \<or> ended = Inr (Response (Text ''student_key required'') (Some 422))"
proof -
  assume a: "enroll statuses x st = Inl ended"
  obtain r e where st: "st = (r, e)" by (cases st)
  show ?thesis
  proof (cases "recorded_key x")
    case None
    from enroll_unrecorded[OF None, of statuses st] a show ?thesis by (auto split: if_splits)
  next
    case (Some k)
    from enroll_with_key[OF Some, of statuses r e] a st show ?thesis by auto
  qed
qed

subsection \<open>The loop as a whole\<close>

lemma enroll_all_append:
  "enroll_all statuses (xs @ ys) st =
     (case enroll_all statuses xs st of Inl ended \<Rightarrow> Inl ended | Inr st' \<Rightarrow> enroll_all statuses ys st')"
  by (induction xs arbitrary: st) (auto split: sum.splits)

lemma enroll_all_completes:
  "\<forall>x\<in>set xs. recorded_key x \<noteq> None \<Longrightarrow> \<exists>r' e'. enroll_all statuses xs (r, e) = Inr (r', e')"
proof (induction xs arbitrary: r e)
  case Nil
  then show ?case by simp
next
  case (Cons x xs)
  then obtain k where k: "recorded_key x = Some k" by auto
  from enroll_with_key[OF k, of statuses r e] obtain v e1
    where "enroll statuses x (r, e) = Inr (AList.update k v r, e1)" by blast
  then show ?case using Cons by simp
qed

lemma enroll_all_ended:
  "enroll_all statuses xs st = Inl ended \<Longrightarrow>
   ended = Inl TypeError \<or> ended = Inr (Response (Text ''student_key required'') (Some 422))"
  by (induction xs arbitrary: st) (auto split: sum.splits dest: enroll_ended)

lemma enroll_all_keys:
  "enroll_all statuses xs (r, e) = Inr (r', e') \<Longrightarrow>
   (\<forall>x\<in>set xs. recorded_key x \<noteq> None) \<and>
   fst ` set r' = fst ` set r \<union> {k. \<exists>x\<in>set xs. recorded_key x = Some k}"
proof (induction xs arbitrary: r e)
  case Nil
  then show ?case by simp
next
  case (Cons x xs)
  from Cons.prems obtain r1 e1 where 1: "enroll statuses x (r, e) = Inr (r1, e1)"
    and 2: "enroll_all statuses xs (r1, e1) = Inr (r', e')"
    by (auto split: sum.splits)
  from enroll_keys[OF 1] obtain k where "recorded_key x = Some k"
    "fst ` set r1 = insert k (fst ` set r)" by blast
  with Cons.IH[OF 2] show ?case by auto
qed

lemma enroll_all_other_key:
  "enroll_all statuses xs (r, e) = Inr (r', e') \<Longrightarrow> \<forall>x\<in>set xs. recorded_key x \<noteq> Some k \<Longrightarrow>
   map_of r' k = map_of r k"
proof (induction xs arbitrary: r e)
  case Nil
  then show ?case by simp
next
  case (Cons x xs)
  from Cons.prems(1) obtain r1 e1 where 1: "enroll statuses x (r, e) = Inr (r1, e1)"
    and 2: "enroll_all statuses xs (r1, e1) = Inr (r', e')"
    by (auto split: sum.splits)
  from Cons.prems(2) have "map_of r1 k = map_of r k" by (intro enroll_other_key[OF 1]) simp
  moreover from Cons.prems(2) have "map_of r' k = map_of r1 k" by (intro Cons.IH[OF 2]) simp
  ultimately show ?case by simp
qed

lemma enroll_all_sticky:
  "enroll_all statuses xs (r, Some 207) = Inr (r', e') \<Longrightarrow> e' = Some 207"
proof (induction xs arbitrary: r)
  case Nil
  then show ?case by simp
next
  case (Cons x xs)
  from Cons.prems obtain r1 e1 where 1: "enroll statuses x (r, Some 207) = Inr (r1, e1)"
    and 2: "enroll_all statuses xs (r1, e1) = Inr (r', e')"
    by (auto split: sum.splits)
  from enroll_sticky[OF 1] 2 Cons.IH show ?case by simp
qed

lemma string_keys_recorded:
  "\<forall>z\<in>set xs. \<exists>j. field z ''student_key'' = Some (JStr j) \<Longrightarrow> \<forall>z\<in>set xs. recorded_key z \<noteq> None"
  using recorded_key_string by fastforce

lemma string_keys_set:
  assumes "\<forall>z\<in>set xs. \<exists>j. field z ''student_key'' = Some (JStr j)"
  shows "{key. \<exists>z\<in>set xs. recorded_key z = Some key} =
         {StrKey j | j. \<exists>z\<in>set xs. field z ''student_key'' = Some (JStr j)}"
proof (intro set_eqI iffI; clarsimp)
  fix key z assume z: "z \<in> set xs" and rk: "recorded_key z = Some key"
  from assms z obtain j where j: "field z ''student_key'' = Some (JStr j)" by blast
  with rk have "key = StrKey j" by (simp flip: recorded_key_string)
  with z j show "\<exists>j. key = StrKey j \<and> (\<exists>z\<in>set xs. field z ''student_key'' = Some (JStr j))"
    by blast
next
  fix j z assume "z \<in> set xs" "field z ''student_key'' = Some (JStr j)"
  then show "\<exists>z\<in>set xs. recorded_key z = Some (StrKey j)"
    by (auto simp: recorded_key_string)
qed

lemma lone_valid_item:
  assumes run: "enroll_all statuses (ps @ x # qs) ([], e0) = Inr (r', e')"
    and x: "serializer statuses x = Inr (k, s)"
    and lone: "\<forall>z\<in>set ps \<union> set qs. recorded_key z \<noteq> Some (StrKey k)"
  shows "map_of r' (StrKey k) = Some s"
proof -
  from run obtain r1 e1 where 1: "enroll_all statuses ps ([], e0) = Inr (r1, e1)"
    and 2: "enroll_all statuses (x # qs) (r1, e1) = Inr (r', e')"
    by (auto simp: enroll_all_append split: sum.splits)
  from enroll_all_keys[OF 1] lone have fresh: "StrKey k \<notin> fst ` set r1" by auto
  with x have "enroll statuses x (r1, e1) = Inr (AList.update (StrKey k) s r1, e1)"
    by (simp add: enroll_valid)
  with 2 have 3: "enroll_all statuses qs (AList.update (StrKey k) s r1, e1) = Inr (r', e')" by simp
  from lone have "map_of r' (StrKey k) = map_of (AList.update (StrKey k) s r1) (StrKey k)"
    by (intro enroll_all_other_key[OF 3]) simp
  then show ?thesis by (simp add: update_conv')
qed

lemma all_valid_status:
  assumes "enroll_all statuses xs (r, e) = Inr (r', e')"
    and "\<forall>x\<in>set xs. is_valid statuses x"
    and "distinct (map (\<lambda>x. field x ''student_key'') xs)"
    and "\<forall>x\<in>set xs. \<forall>k. field x ''student_key'' = Some (JStr k) \<longrightarrow> StrKey k \<notin> fst ` set r"
  shows "e' = e"
  using assms
proof (induction xs arbitrary: r)
  case Nil
  then show ?case by simp
next
  case (Cons x xs)
  from Cons.prems(2) obtain k s where x: "serializer statuses x = Inr (k, s)"
    by (cases "serializer statuses x") (auto simp: is_valid_def)
  then have k: "field x ''student_key'' = Some (JStr k)" by (simp add: serializer_Inr_iff)
  with Cons.prems(4) have "StrKey k \<notin> fst ` set r" by simp
  with x have step: "enroll statuses x (r, e) = Inr (AList.update (StrKey k) s r, e)"
    by (simp add: enroll_valid)
  with Cons.prems(1) have rest: "enroll_all statuses xs (AList.update (StrKey k) s r, e) = Inr (r', e')"
    by simp
  have "\<forall>y\<in>set xs. \<forall>k'. field y ''student_key'' = Some (JStr k') \<longrightarrow>
          StrKey k' \<notin> fst ` set (AList.update (StrKey k) s r)"
  proof (intro ballI allI impI)
    fix y k' assume y: "y \<in> set xs" and k': "field y ''student_key'' = Some (JStr k')"
    from Cons.prems(3) y have "field y ''student_key'' \<noteq> field x ''student_key''"
      by (auto simp: image_iff)
    with k k' have "k' \<noteq> k" by auto
    moreover from Cons.prems(4) y k' have "StrKey k' \<notin> fst ` set r" by simp
    ultimately show "StrKey k' \<notin> fst ` set (AList.update (StrKey k) s r)" by (simp add: dom_update)
  qed
  with Cons.IH[OF rest] Cons.prems(2,3) show ?case by simp
qed

lemma last_invalid_entry:
  assumes run: "enroll_all statuses (ps @ x # qs) st = Inr (r', e')"
    and invalid: "\<not> is_valid statuses x"
    and key: "recorded_key x = Some k"
    and last: "\<forall>z\<in>set qs. recorded_key z \<noteq> Some k"
  shows "map_of r' k = Some (if field x ''status'' \<notin> (\<lambda>s. Some (JStr s)) ` set statuses
                             then ''invalid-status'' else ''internal-error'')"
proof -
  let ?tag = "if field x ''status'' \<notin> (\<lambda>s. Some (JStr s)) ` set statuses
              then ''invalid-status'' else ''internal-error''"
  from run obtain r1 e1 where 1: "enroll_all statuses ps st = Inr (r1, e1)"
    and 2: "enroll_all statuses (x # qs) (r1, e1) = Inr (r', e')"
    by (auto simp: enroll_all_append split: sum.splits)
  from enroll_invalid[OF invalid key, of r1 e1]
  have "enroll statuses x (r1, e1) = Inr (AList.update k ?tag r1, Some 207)" by simp
  with 2 have 3: "enroll_all statuses qs (AList.update k ?tag r1, Some 207) = Inr (r', e')" by simp
  from enroll_all_other_key[OF 3 last] show ?thesis by (simp add: update_conv')
qed

lemma invalid_item_partial:
  assumes run: "enroll_all statuses (ps @ x # qs) st = Inr (r', e')"
    and invalid: "\<not> is_valid statuses x"
  shows "e' = Some 207"
proof -
  from run obtain r1 e1 where 1: "enroll_all statuses ps st = Inr (r1, e1)"
    and 2: "enroll_all statuses (x # qs) (r1, e1) = Inr (r', e')"
    by (auto simp: enroll_all_append split: sum.splits)
  from 2 obtain r2 e2 where step: "enroll statuses x (r1, e1) = Inr (r2, e2)"
    and 3: "enroll_all statuses qs (r2, e2) = Inr (r', e')"
    by (auto split: sum.splits)
  from enroll_keys[OF step] obtain k where key: "recorded_key x = Some k" by blast
  from enroll_invalid[OF invalid key, of r1 e1] step have "e2 = Some 207" by simp
  with 3 show ?thesis by (auto dest: enroll_all_sticky)
qed

lemma duplicated_persists:
  assumes "enroll_all statuses cs (r, e) = Inr (r', e')"
    and "map_of r k = Some ''duplicated''"
    and "\<forall>z\<in>set cs. recorded_key z = Some k \<longrightarrow> is_valid statuses z"
  shows "map_of r' k = Some ''duplicated''"
  using assms
proof (induction cs arbitrary: r e)
  case Nil
  then show ?case by simp
next
  case (Cons z cs)
  from Cons.prems(1) obtain r1 e1 where step: "enroll statuses z (r, e) = Inr (r1, e1)"
    and rest: "enroll_all statuses cs (r1, e1) = Inr (r', e')"
    by (auto split: sum.splits)
  have "map_of r1 k = Some ''duplicated''"
  proof (cases "recorded_key z = Some k")
    case True
    with Cons.prems(3) obtain k' s where ser: "serializer statuses z = Inr (k', s)"
      by (cases "serializer statuses z") (auto simp: is_valid_def)
    with True have "k = StrKey k'" by (auto dest: recorded_key_valid)
    moreover from Cons.prems(2) have "k \<in> fst ` set r"
      by (auto dest: map_of_SomeD intro: rev_image_eqI)
    ultimately show ?thesis using ser step by (auto simp: enroll_valid update_conv')
  next
    case False
    from enroll_other_key[OF step False] Cons.prems(2) show ?thesis by simp
  qed
  from Cons.IH[OF rest this] Cons.prems(3) show ?case by simp
qed

lemma post_list:
  assumes "FAKE_PROGRAM_DICT d pk = Some p" "metadata_readable (managing_organization p)"
    and "length xs \<le> 25"
  shows "post statuses d pk (JArr xs) =
           (case enroll_all statuses xs ([], None) of
              Inl ended \<Rightarrow> ended
            | Inr (response, error_status) \<Rightarrow> Inr (Response (Dict response) error_status))"
  using assms by (simp add: post_def program_def)

lemma post_Dict_run:
  assumes "post statuses d pk (JArr xs) = Inr (Response (Dict r) e)"
  shows "\<exists>p. FAKE_PROGRAM_DICT d pk = Some p \<and> metadata_readable (managing_organization p) \<and>
             length xs \<le> 25 \<and> enroll_all statuses xs ([], None) = Inr (r, e)"
  using assms
  by (auto simp: post_def program_def split: option.splits if_splits sum.splits
           dest: enroll_all_ended)

subsection \<open>Evaluating the sample deployment\<close>

lemmas sample_defs = sample_data_def sample_statuses_def open_program_def hidden_program_def
  readable_org_def hidden_org_def submission_def

lemma sample_open:
  "FAKE_PROGRAM_DICT sample_data ''open'' = Some open_program"
  "metadata_readable (managing_organization open_program)"
  by (simp_all add: sample_defs)

lemmas eval_defs = post_def program_def enroll_def record_failure_def setitem_def serializer_def
  status_errors_def student_key_errors_def is_valid_def http_defs sample_defs

lemma recorded_key_submission: "recorded_key (submission k s) = Some (StrKey k)"
  by (simp add: recorded_key_def submission_def)

lemma field_submission:
  "field (submission k s) ''student_key'' = Some (JStr k)"
  "field (submission k s) ''status'' = Some (JStr s)"
  by (simp_all add: submission_def)

subsection \<open>Batches of valid submissions with distinct keys\<close>

text \<open>
  C1. For a program that exists and whose organization is metadata-readable, and a list of
  at most 25 submissions, each with a \<^verbatim>\<open>student_key\<close> that is a non-empty string and a status
  of the enumeration, the keys pairwise distinct: \<open>post\<close> returns the result dictionary
  with no status of its own (sent with 200), the dictionary sends each submitted
  \<^verbatim>\<open>student_key\<close> to the status submitted for it, and it has no other key.
\<close>

theorem unique_valid_batch_full_success:
  assumes prog: "FAKE_PROGRAM_DICT d pk = Some p" "metadata_readable (managing_organization p)"
    and len: "length xs \<le> 25"
    and valid: "\<forall>x\<in>set xs. \<exists>k s. field x ''student_key'' = Some (JStr k) \<and> k \<noteq> [] \<and>
                  field x ''status'' = Some (JStr s) \<and> s \<in> set statuses"
    and dist: "distinct (map (\<lambda>x. field x ''student_key'') xs)"
  shows "\<exists>r. post statuses d pk (JArr xs) = Inr (Response (Dict r) None) \<and>
             status_code (post statuses d pk (JArr xs)) = 200 \<and>
             (\<forall>x\<in>set xs. \<forall>k s. field x ''student_key'' = Some (JStr k) \<longrightarrow>
                field x ''status'' = Some (JStr s) \<longrightarrow> map_of r (StrKey k) = Some s) \<and>
             fst ` set r = {j. \<exists>x\<in>set xs. \<exists>k. field x ''student_key'' = Some (JStr k) \<and> j = StrKey k}"
proof -
  from valid have ok: "\<forall>x\<in>set xs. is_valid statuses x" by (simp add: is_valid_iff)
  have rk: "recorded_key x = Some (StrKey k)"
    if "x \<in> set xs" "field x ''student_key'' = Some (JStr k)" for x k
    using that by (simp add: recorded_key_def flip: getitem_field)
  from valid rk have keys: "\<forall>x\<in>set xs. recorded_key x \<noteq> None" by fastforce
  from enroll_all_completes[OF keys, of statuses "[]" None] obtain r e
    where run: "enroll_all statuses xs ([], None) = Inr (r, e)" by blast
  from all_valid_status[OF run ok dist] have e: "e = None" by simp
  have res: "post statuses d pk (JArr xs) = Inr (Response (Dict r) None)"
    using run e by (simp add: post_list[OF prog len])
  have entries: "\<forall>x\<in>set xs. \<forall>k s. field x ''student_key'' = Some (JStr k) \<longrightarrow>
                   field x ''status'' = Some (JStr s) \<longrightarrow> map_of r (StrKey k) = Some s"
  proof (intro ballI allI impI)
    fix x k s assume x: "x \<in> set xs" and k: "field x ''student_key'' = Some (JStr k)"
      and s: "field x ''status'' = Some (JStr s)"
    from x obtain ps qs where split: "xs = ps @ x # qs" by (auto dest: split_list)
    from valid x k s have ser: "serializer statuses x = Inr (k, s)"
      by (auto simp: serializer_Inr_iff)
    have "\<forall>z\<in>set ps \<union> set qs. recorded_key z \<noteq> Some (StrKey k)"
    proof
      fix z assume z: "z \<in> set ps \<union> set qs"
      with split have zx: "z \<in> set xs" by auto
      with valid obtain k' where k': "field z ''student_key'' = Some (JStr k')" by blast
      from dist split z have "field z ''student_key'' \<noteq> field x ''student_key''"
        by (auto simp: image_iff)
      with k k' have "k' \<noteq> k" by auto
      with rk[OF zx k'] show "recorded_key z \<noteq> Some (StrKey k)" by simp
    qed
    with run ser show "map_of r (StrKey k) = Some s"
      unfolding split by (rule lone_valid_item)
  qed
  from enroll_all_keys[OF run]
  have "fst ` set r = {j. \<exists>x\<in>set xs. recorded_key x = Some j}" by simp
  also have "\<dots> = {j. \<exists>x\<in>set xs. \<exists>k. field x ''student_key'' = Some (JStr k) \<and> j = StrKey k}"
    using valid rk by fastforce
  finally show ?thesis using res entries by simp
qed

theorem unique_valid_batch_full_success_witness:
  "post sample_statuses sample_data ''open''
     (JArr [submission ''a'' ''enrolled'', submission ''b'' ''pending'']) =
     Inr (Response (Dict [(StrKey ''a'', ''enrolled''), (StrKey ''b'', ''pending'')]) None) \<and>
   (\<exists>r. post sample_statuses sample_data ''open''
          (JArr [submission ''a'' ''enrolled'', submission ''b'' ''pending'']) =
          Inr (Response (Dict r) None) \<and>
        map_of r (StrKey ''a'') = Some ''enrolled'' \<and> map_of r (StrKey ''b'') = Some ''pending'' \<and>
        fst ` set r = {StrKey ''a'', StrKey ''b''})"
proof -
  let ?xs = "[submission ''a'' ''enrolled'', submission ''b'' ''pending'']"
  have len: "length ?xs \<le> 25" by simp
  have valid: "\<forall>x\<in>set ?xs. \<exists>k s. field x ''student_key'' = Some (JStr k) \<and> k \<noteq> [] \<and>
      field x ''status'' = Some (JStr s) \<and> s \<in> set sample_statuses"
    by (simp add: sample_defs)
  have dist: "distinct (map (\<lambda>x. field x ''student_key'') ?xs)"
    by (simp add: sample_defs)
  from unique_valid_batch_full_success[OF sample_open len valid dist]
  obtain r where r: "post sample_statuses sample_data ''open'' (JArr ?xs) = Inr (Response (Dict r) None)"
     "\<forall>x\<in>set ?xs. \<forall>k s. field x ''student_key'' = Some (JStr k) \<longrightarrow>
        field x ''status'' = Some (JStr s) \<longrightarrow> map_of r (StrKey k) = Some s"
     "fst ` set r = {j. \<exists>x\<in>set ?xs. \<exists>k. field x ''student_key'' = Some (JStr k) \<and> j = StrKey k}"
    by blast
  from r(2) have "map_of r (StrKey ''a'') = Some ''enrolled''" "map_of r (StrKey ''b'') = Some ''pending''"
    by (simp_all add: submission_def)
  moreover from r(3) have "fst ` set r = {StrKey ''a'', StrKey ''b''}" by (auto simp: submission_def)
  moreover have "post sample_statuses sample_data ''open'' (JArr ?xs) =
     Inr (Response (Dict [(StrKey ''a'', ''enrolled''), (StrKey ''b'', ''pending'')]) None)"
    by (simp add: eval_defs)
  ultimately show ?thesis using r(1) by blast
qed

subsection \<open>A repeated student key\<close>

text \<open>
  C2, as stated, fails: two valid submissions with the key \<^verbatim>\<open>a\<close> followed by a submission
  with the same key and a status outside the enumeration leave \<^verbatim>\<open>invalid-status\<close> under
  \<^verbatim>\<open>a\<close>, not \<^verbatim>\<open>duplicated\<close>; followed by a dictionary without a \<^verbatim>\<open>student_key\<close> they
  leave no result dictionary at all; and followed by an invalid item whose \<^verbatim>\<open>student_key\<close>
  is a list they end in an exception that is not caught.
\<close>

theorem repeated_valid_key_counterexample:
  "is_valid sample_statuses (submission ''a'' ''enrolled'') \<and>
   post sample_statuses sample_data ''open''
     (JArr [submission ''a'' ''enrolled'', submission ''a'' ''enrolled'', submission ''a'' ''bogus'']) =
     Inr (Response (Dict [(StrKey ''a'', ''invalid-status'')]) (Some 207)) \<and>
   map_of [(StrKey ''a'', ''invalid-status'')] (StrKey ''a'') \<noteq> Some ''duplicated'' \<and>
   post sample_statuses sample_data ''open''
     (JArr [submission ''a'' ''enrolled'', submission ''a'' ''enrolled'',
            JObj [(''status'', JStr ''enrolled'')]]) =
     Inr (Response (Text ''student_key required'') (Some 422)) \<and>
   post sample_statuses sample_data ''open''
     (JArr [submission ''a'' ''enrolled'', submission ''a'' ''enrolled'',
            JObj [(''student_key'', JArr [JStr ''k'']), (''status'', JStr ''bogus'')]]) =
     Inl TypeError"
  by (simp add: eval_defs)

text \<open>
  C2, amended. For a readable program and a list of at most 25 elements, each of which is
  a dictionary whose \<^verbatim>\<open>student_key\<close> is a string: when two valid submissions \<open>x\<close> and \<open>y\<close>
  carry the same \<^verbatim>\<open>student_key\<close> and every element after \<open>y\<close> that carries this key is
  valid too, \<open>post\<close> returns the result dictionary with 207, the key is sent to
  \<^verbatim>\<open>duplicated\<close>, and the dictionary has the submitted keys and no other. The witness is
  the two-element example of the specification.
\<close>

theorem repeated_valid_key_duplicated:
  assumes prog: "FAKE_PROGRAM_DICT d pk = Some p" "metadata_readable (managing_organization p)"
    and len: "length (as @ x # bs @ y # cs) \<le> 25"
    and keys: "\<forall>z\<in>set (as @ x # bs @ y # cs). \<exists>j. field z ''student_key'' = Some (JStr j)"
    and x: "is_valid statuses x" "field x ''student_key'' = Some (JStr k)"
    and y: "is_valid statuses y" "field y ''student_key'' = Some (JStr k)"
    and later: "\<forall>z\<in>set cs. field z ''student_key'' = Some (JStr k) \<longrightarrow> is_valid statuses z"
  shows "\<exists>r. post statuses d pk (JArr (as @ x # bs @ y # cs)) = Inr (Response (Dict r) (Some 207)) \<and>
             map_of r (StrKey k) = Some ''duplicated'' \<and>
             fst ` set r = {StrKey j | j. \<exists>z\<in>set (as @ x # bs @ y # cs).
                                            field z ''student_key'' = Some (JStr j)} \<and>
             status_code (post statuses d pk (JArr (as @ x # bs @ y # cs))) = 207"
proof -
  from string_keys_recorded[OF keys]
  have keys': "\<forall>z\<in>set (as @ x # bs @ y # cs). recorded_key z \<noteq> None" .
  from later have later': "\<forall>z\<in>set cs. recorded_key z = Some (StrKey k) \<longrightarrow> is_valid statuses z"
    by (simp add: recorded_key_string)
  from enroll_all_completes[OF keys', of statuses "[]" None] obtain r e
    where run: "enroll_all statuses (as @ x # bs @ y # cs) ([], None) = Inr (r, e)" by blast
  then obtain r1 e1 where 1: "enroll_all statuses (as @ x # bs) ([], None) = Inr (r1, e1)"
    and 2: "enroll_all statuses (y # cs) (r1, e1) = Inr (r, e)"
    using enroll_all_append[of statuses "as @ x # bs" "y # cs" "([], None)"]
    by (auto split: sum.splits)
  from x(2) have "recorded_key x = Some (StrKey k)" by (simp add: recorded_key_string)
  with enroll_all_keys[OF 1] have seen: "StrKey k \<in> fst ` set r1" by auto
  from y obtain s where ser: "serializer statuses y = Inr (k, s)"
    by (cases "serializer statuses y") (auto simp: is_valid_def serializer_Inr_iff)
  with seen have "enroll statuses y (r1, e1) = Inr (AList.update (StrKey k) ''duplicated'' r1, Some 207)"
    by (simp add: enroll_valid)
  with 2 have 3: "enroll_all statuses cs (AList.update (StrKey k) ''duplicated'' r1, Some 207) = Inr (r, e)"
    by simp
  have "map_of (AList.update (StrKey k) ''duplicated'' r1) (StrKey k) = Some ''duplicated''"
    by (simp add: update_conv')
  from duplicated_persists[OF 3 this later'] have dup: "map_of r (StrKey k) = Some ''duplicated''" .
  from enroll_all_sticky[OF 3] have e: "e = Some 207" .
  from run e have "post statuses d pk (JArr (as @ x # bs @ y # cs)) = Inr (Response (Dict r) (Some 207))"
    by (simp add: post_list[OF prog len])
  moreover from enroll_all_keys[OF run] string_keys_set[OF keys]
  have "fst ` set r = {StrKey j | j. \<exists>z\<in>set (as @ x # bs @ y # cs).
                                       field z ''student_key'' = Some (JStr j)}"
    by simp
  ultimately show ?thesis using dup by simp
qed

theorem repeated_valid_key_duplicated_witness:
  "post sample_statuses sample_data ''open''
     (JArr [submission ''a'' ''enrolled'', submission ''a'' ''enrolled'']) =
     Inr (Response (Dict [(StrKey ''a'', ''duplicated'')]) (Some 207)) \<and>
   (\<exists>r. post sample_statuses sample_data ''open''
          (JArr [submission ''a'' ''enrolled'', submission ''a'' ''enrolled'']) =
          Inr (Response (Dict r) (Some 207)) \<and> map_of r (StrKey ''a'') = Some ''duplicated'') \<and>
   status_code (post sample_statuses sample_data ''open''
     (JArr [submission ''a'' ''enrolled'', submission ''a'' ''enrolled''])) = 207"
proof -
  have len: "length ([] @ submission ''a'' ''enrolled'' # [] @ submission ''a'' ''enrolled'' # []) \<le> 25"
    by simp
  have keys: "\<forall>z\<in>set ([] @ submission ''a'' ''enrolled'' # [] @ submission ''a'' ''enrolled'' # []).
      \<exists>j. field z ''student_key'' = Some (JStr j)"
    by (simp add: field_submission)
  have v: "is_valid sample_statuses (submission ''a'' ''enrolled'')"
    by (simp add: eval_defs)
  have k: "field (submission ''a'' ''enrolled'') ''student_key'' = Some (JStr ''a'')"
    by (simp add: submission_def)
  have later: "\<forall>z\<in>set []. field z ''student_key'' = Some (JStr ''a'') \<longrightarrow> is_valid sample_statuses z"
    by simp
  from repeated_valid_key_duplicated[OF sample_open len keys v k v k later]
  have "\<exists>r. post sample_statuses sample_data ''open''
          (JArr [submission ''a'' ''enrolled'', submission ''a'' ''enrolled'']) =
          Inr (Response (Dict r) (Some 207)) \<and> map_of r (StrKey ''a'') = Some ''duplicated'' \<and>
          status_code (post sample_statuses sample_data ''open''
           (JArr [submission ''a'' ''enrolled'', submission ''a'' ''enrolled''])) = 207"
    by auto
  moreover have "post sample_statuses sample_data ''open''
     (JArr [submission ''a'' ''enrolled'', submission ''a'' ''enrolled'']) =
     Inr (Response (Dict [(StrKey ''a'', ''duplicated'')]) (Some 207))"
    by (simp add: eval_defs)
  ultimately show ?thesis by blast
qed

subsection \<open>A submission with a status outside the enumeration\<close>

text \<open>
  C3, as stated, fails: after a valid submission of \<^verbatim>\<open>b\<close>, a submission of \<^verbatim>\<open>b\<close> with the
  status \<^verbatim>\<open>bogus\<close> replaces the recorded status, so the valid item does not appear with the
  status submitted for it; in the other order the key is sent to \<^verbatim>\<open>duplicated\<close>, not to
  \<^verbatim>\<open>invalid-status\<close>; and a \<^verbatim>\<open>student_key\<close> that is present but is a list ends the request
  in an exception that is not caught.
\<close>

theorem invalid_status_item_counterexample:
  "is_valid sample_statuses (submission ''b'' ''enrolled'') \<and>
   ''bogus'' \<notin> set sample_statuses \<and>
   post sample_statuses sample_data ''open''
     (JArr [submission ''b'' ''enrolled'', submission ''b'' ''bogus'']) =
     Inr (Response (Dict [(StrKey ''b'', ''invalid-status'')]) (Some 207)) \<and>
   map_of [(StrKey ''b'', ''invalid-status'')] (StrKey ''b'') \<noteq> Some ''enrolled'' \<and>
   post sample_statuses sample_data ''open''
     (JArr [submission ''b'' ''bogus'', submission ''b'' ''enrolled'']) =
     Inr (Response (Dict [(StrKey ''b'', ''duplicated'')]) (Some 207)) \<and>
   map_of [(StrKey ''b'', ''duplicated'')] (StrKey ''b'') \<noteq> Some ''invalid-status'' \<and>
   post sample_statuses sample_data ''open''
     (JArr [JObj [(''student_key'', JArr [JStr ''k'']), (''status'', JStr ''bogus'')]]) =
     Inl TypeError"
  by (simp add: eval_defs)

text \<open>
  C3, amended. For a readable program and a list of at most 25 elements, each of which is
  a dictionary whose \<^verbatim>\<open>student_key\<close> is a string, and one of which, \<open>x\<close>, has the key \<open>b\<close>
  and a status that is absent or outside the enumeration: \<open>post\<close> returns the result
  dictionary with 207; \<open>b\<close> is sent to \<^verbatim>\<open>invalid-status\<close> provided every later element
  carrying \<open>b\<close> has such a status too; and every valid submission whose key no other
  element carries is sent to the status submitted for it.
\<close>

theorem invalid_status_item_recorded:
  assumes prog: "FAKE_PROGRAM_DICT d pk = Some p" "metadata_readable (managing_organization p)"
    and len: "length (as @ x # cs) \<le> 25"
    and keys: "\<forall>z\<in>set (as @ x # cs). \<exists>j. field z ''student_key'' = Some (JStr j)"
    and x: "field x ''student_key'' = Some (JStr b)"
      "field x ''status'' \<notin> (\<lambda>s. Some (JStr s)) ` set statuses"
  shows "\<exists>r. post statuses d pk (JArr (as @ x # cs)) = Inr (Response (Dict r) (Some 207)) \<and>
             status_code (post statuses d pk (JArr (as @ x # cs))) = 207 \<and>
             ((\<forall>z\<in>set cs. field z ''student_key'' = Some (JStr b) \<longrightarrow>
                  field z ''status'' \<notin> (\<lambda>s. Some (JStr s)) ` set statuses) \<longrightarrow>
                map_of r (StrKey b) = Some ''invalid-status'') \<and>
             (\<forall>ps y qs k s. as @ x # cs = ps @ y # qs \<and> is_valid statuses y \<and>
                  field y ''student_key'' = Some (JStr k) \<and> field y ''status'' = Some (JStr s) \<and>
                  (\<forall>z\<in>set ps \<union> set qs. field z ''student_key'' \<noteq> Some (JStr k)) \<longrightarrow>
                map_of r (StrKey k) = Some s)"
proof -
  from string_keys_recorded[OF keys] have keys': "\<forall>z\<in>set (as @ x # cs). recorded_key z \<noteq> None" .
  from x(1) have xk: "recorded_key x = Some (StrKey b)" by (simp add: recorded_key_string)
  from enroll_all_completes[OF keys', of statuses "[]" None] obtain r e
    where run: "enroll_all statuses (as @ x # cs) ([], None) = Inr (r, e)" by blast
  from x(2) have invalid: "\<not> is_valid statuses x" by (auto simp: is_valid_iff)
  from invalid_item_partial[OF run invalid] have e: "e = Some 207" .
  with run have res: "post statuses d pk (JArr (as @ x # cs)) = Inr (Response (Dict r) (Some 207))"
    by (simp add: post_list[OF prog len])
  have own: "map_of r (StrKey b) = Some ''invalid-status''"
    if later: "\<forall>z\<in>set cs. field z ''student_key'' = Some (JStr b) \<longrightarrow>
                 field z ''status'' \<notin> (\<lambda>s. Some (JStr s)) ` set statuses"
  proof -
    have "\<exists>z\<in>set (x # cs). recorded_key z = Some (StrKey b)" using xk by simp
    from split_list_last_prop[OF this] obtain us z vs where split: "x # cs = us @ z # vs"
      and z: "recorded_key z = Some (StrKey b)"
      and last: "\<forall>v\<in>set vs. recorded_key v \<noteq> Some (StrKey b)"
      by blast
    have "z \<in> set (x # cs)" unfolding split by simp
    with x(2) later z have zs: "field z ''status'' \<notin> (\<lambda>s. Some (JStr s)) ` set statuses"
      by (auto simp: recorded_key_string)
    then have zi: "\<not> is_valid statuses z" by (auto simp: is_valid_iff)
    from run split have "enroll_all statuses ((as @ us) @ z # vs) ([], None) = Inr (r, e)" by simp
    from last_invalid_entry[OF this zi z last] zs show ?thesis by simp
  qed
  have others: "map_of r (StrKey k) = Some s"
    if "as @ x # cs = ps @ y # qs" "is_valid statuses y" "field y ''student_key'' = Some (JStr k)"
      "field y ''status'' = Some (JStr s)"
      "\<forall>z\<in>set ps \<union> set qs. field z ''student_key'' \<noteq> Some (JStr k)"
    for ps y qs k s
  proof -
    from that(2,3,4) have ser: "serializer statuses y = Inr (k, s)"
      by (auto simp: is_valid_iff serializer_Inr_iff)
    from that(5) have lone: "\<forall>z\<in>set ps \<union> set qs. recorded_key z \<noteq> Some (StrKey k)"
      by (simp add: recorded_key_string)
    from run that(1) have "enroll_all statuses (ps @ y # qs) ([], None) = Inr (r, e)" by simp
    from lone_valid_item[OF this ser lone] show ?thesis .
  qed
  from res own others show ?thesis by auto
qed

theorem invalid_status_item_recorded_witness:
  "post sample_statuses sample_data ''open''
     (JArr [submission ''a'' ''enrolled'', submission ''b'' ''bogus'', submission ''c'' ''pending'']) =
     Inr (Response (Dict [(StrKey ''a'', ''enrolled''), (StrKey ''b'', ''invalid-status''),
                          (StrKey ''c'', ''pending'')]) (Some 207)) \<and>
   (\<exists>r. post sample_statuses sample_data ''open''
      (JArr [submission ''a'' ''enrolled'', submission ''b'' ''bogus'', submission ''c'' ''pending'']) =
      Inr (Response (Dict r) (Some 207)) \<and>
      map_of r (StrKey ''b'') = Some ''invalid-status'' \<and> map_of r (StrKey ''a'') = Some ''enrolled'' \<and>
      map_of r (StrKey ''c'') = Some ''pending'')"
proof -
  let ?a = "submission ''a'' ''enrolled''" and ?b = "submission ''b'' ''bogus''"
    and ?c = "submission ''c'' ''pending''"
  have len: "length ([?a] @ ?b # [?c]) \<le> 25" by simp
  have keys: "\<forall>z\<in>set ([?a] @ ?b # [?c]). \<exists>j. field z ''student_key'' = Some (JStr j)"
    by (simp add: field_submission)
  have x: "field ?b ''student_key'' = Some (JStr ''b'')"
    "field ?b ''status'' \<notin> (\<lambda>s. Some (JStr s)) ` set sample_statuses"
    by (simp_all add: sample_defs)
  from invalid_status_item_recorded[OF sample_open len keys x] obtain r
    where r: "post sample_statuses sample_data ''open'' (JArr ([?a] @ ?b # [?c])) =
        Inr (Response (Dict r) (Some 207))"
      and own: "(\<forall>z\<in>set [?c]. field z ''student_key'' = Some (JStr ''b'') \<longrightarrow>
                   field z ''status'' \<notin> (\<lambda>s. Some (JStr s)) ` set sample_statuses) \<longrightarrow>
                map_of r (StrKey ''b'') = Some ''invalid-status''"
      and others: "\<forall>ps y qs k s. [?a] @ ?b # [?c] = ps @ y # qs \<and> is_valid sample_statuses y \<and>
                  field y ''student_key'' = Some (JStr k) \<and> field y ''status'' = Some (JStr s) \<and>
                  (\<forall>z\<in>set ps \<union> set qs. field z ''student_key'' \<noteq> Some (JStr k)) \<longrightarrow>
                map_of r (StrKey k) = Some s"
    by blast
  from own have b: "map_of r (StrKey ''b'') = Some ''invalid-status''"
    by (simp add: field_submission)
  have "[?a] @ ?b # [?c] = [] @ ?a # [?b, ?c] \<and> is_valid sample_statuses ?a \<and>
      field ?a ''student_key'' = Some (JStr ''a'') \<and> field ?a ''status'' = Some (JStr ''enrolled'') \<and>
      (\<forall>z\<in>set [] \<union> set [?b, ?c]. field z ''student_key'' \<noteq> Some (JStr ''a''))"
    by (simp add: is_valid_iff field_submission sample_statuses_def)
  with others have a: "map_of r (StrKey ''a'') = Some ''enrolled''" by blast
  have "[?a] @ ?b # [?c] = [?a, ?b] @ ?c # [] \<and> is_valid sample_statuses ?c \<and>
      field ?c ''student_key'' = Some (JStr ''c'') \<and> field ?c ''status'' = Some (JStr ''pending'') \<and>
      (\<forall>z\<in>set [?a, ?b] \<union> set []. field z ''student_key'' \<noteq> Some (JStr ''c''))"
    by (simp add: is_valid_iff field_submission sample_statuses_def)
  with others have c: "map_of r (StrKey ''c'') = Some ''pending''" by blast
  have "post sample_statuses sample_data ''open'' (JArr [?a, ?b, ?c]) =
     Inr (Response (Dict [(StrKey ''a'', ''enrolled''), (StrKey ''b'', ''invalid-status''),
                          (StrKey ''c'', ''pending'')]) (Some 207))"
    by (simp add: eval_defs)
  with r a b c show ?thesis by auto
qed

subsection \<open>An element without a student key\<close>

text \<open>
  What holds of a dictionary that has no \<^verbatim>\<open>student_key\<close>: when every element before it is
  a dictionary whose \<^verbatim>\<open>student_key\<close> is a string, \<open>post\<close> returns the literal
  \<^verbatim>\<open>student_key required\<close> with 422 and no result dictionary, whatever follows.
\<close>

lemma keyless_dictionary_returns_422:
  assumes prog: "FAKE_PROGRAM_DICT d pk = Some p" "metadata_readable (managing_organization p)"
    and len: "length (ps @ JObj items # qs) \<le> 25"
    and before: "\<forall>z\<in>set ps. \<exists>j. field z ''student_key'' = Some (JStr j)"
    and missing: "map_of items ''student_key'' = None"
  shows "post statuses d pk (JArr (ps @ JObj items # qs)) =
           Inr (Response (Text ''student_key required'') (Some 422))"
proof -
  from enroll_all_completes[OF string_keys_recorded[OF before], of statuses "[]" None] obtain r e
    where run: "enroll_all statuses ps ([], None) = Inr (r, e)" by blast
  from missing have "recorded_key (JObj items) = None" by (simp add: recorded_key_def)
  from enroll_unrecorded[OF this, of statuses "(r, e)"] missing
  have "enroll statuses (JObj items) (r, e) =
      Inl (Inr (Response (Text ''student_key required'') (Some 422)))"
    by simp
  with run have "enroll_all statuses (ps @ JObj items # qs) ([], None) =
      Inl (Inr (Response (Text ''student_key required'') (Some 422)))"
    by (simp add: enroll_all_append)
  then show ?thesis by (simp add: post_list[OF prog len])
qed

text \<open>
  C4. The \<^verbatim>\<open>try\<close> block catches \<open>KeyError\<close> only. A list element that is not a
  dictionary (a string, \<open>None\<close>) has no \<^verbatim>\<open>student_key\<close> to extract either, but its
  subscript raises \<open>TypeError\<close>: the request ends in a server error, 500, not in 422. The
  same happens when an earlier invalid element has a list for its \<^verbatim>\<open>student_key\<close>: the
  dictionary without a \<^verbatim>\<open>student_key\<close> that follows is never reached. The last conjunct is
  the case that does end with 422.
\<close>

theorem unextractable_student_key_raises:
  "post sample_statuses sample_data ''open'' (JArr [JStr ''a'']) = Inl TypeError \<and>
   status_code (post sample_statuses sample_data ''open'' (JArr [JStr ''a''])) = 500 \<and>
   post sample_statuses sample_data ''open'' (JArr [submission ''a'' ''enrolled'', JNull]) =
     Inl TypeError \<and>
   post sample_statuses sample_data ''open''
     (JArr [JObj [(''student_key'', JArr [JStr ''k'']), (''status'', JStr ''bogus'')],
            JObj [(''status'', JStr ''enrolled'')]]) = Inl TypeError \<and>
   post sample_statuses sample_data ''open''
     (JArr [submission ''a'' ''enrolled'', JObj [(''status'', JStr ''enrolled'')]]) =
     Inr (Response (Text ''student_key required'') (Some 422))"
  by (simp add: eval_defs)

subsection \<open>A body that is not a list\<close>

text \<open>
  C5. On a readable program, a body that is a JSON object makes \<open>post\<close> raise
  \<open>ValidationError\<close> before the loop: no submission is processed and there is no result
  dictionary. The exception is the REST framework's, and it is answered with 400, where
  the docstring of the view and the specification say 422.
\<close>

theorem object_body_answered_400:
  "post sample_statuses sample_data ''open'' (submission ''a'' ''enrolled'') = Inl ValidationError \<and>
   status_code (post sample_statuses sample_data ''open'' (submission ''a'' ''enrolled'')) = 400"
  by (simp add: post_def program_def sample_defs)

subsection \<open>The batch limit\<close>

text \<open>
  C6. For a readable program and a list of more than 25 submissions, \<open>post\<close> returns the
  literal \<^verbatim>\<open>enrollement limit 25\<close> with 413. The answer does not depend on the submissions, so
  none of them was validated: the witness is a batch of 26 empty dictionaries, any one of
  which would have ended the loop with 422.
\<close>

theorem oversized_batch_rejected:
  assumes prog: "FAKE_PROGRAM_DICT d pk = Some p" "metadata_readable (managing_organization p)"
    and len: "length xs > 25"
  shows "post statuses d pk (JArr xs) = Inr (Response (Text ''enrollement limit 25'') (Some 413)) \<and>
         status_code (post statuses d pk (JArr xs)) = 413"
  using assms by (simp add: post_def program_def http_defs)

theorem oversized_batch_rejected_witness:
  "post sample_statuses sample_data ''open'' (JArr (replicate 26 (JObj []))) =
     Inr (Response (Text ''enrollement limit 25'') (Some 413)) \<and>
   status_code (post sample_statuses sample_data ''open'' (JArr (replicate 26 (JObj [])))) = 413"
proof -
  have len: "length (replicate 26 (JObj [])) > 25" by simp
  from oversized_batch_rejected[OF sample_open len] show ?thesis .
qed

subsection \<open>An empty student key\<close>

text \<open>
  C7, as stated, fails: a submission whose \<^verbatim>\<open>student_key\<close> is the empty string is not valid,
  but the view finds the key in the submitted dictionary, so no \<open>KeyError\<close> is raised: the
  item is recorded under the empty key and the request ends with 207, not with 422.
\<close>

theorem empty_student_key_counterexample:
  "\<not> is_valid sample_statuses (submission '''' ''enrolled'') \<and>
   post sample_statuses sample_data ''open'' (JArr [submission '''' ''enrolled'']) =
     Inr (Response (Dict [(StrKey '''', ''internal-error'')]) (Some 207)) \<and>
   status_code (post sample_statuses sample_data ''open'' (JArr [submission '''' ''enrolled''])) \<noteq> 422"
  by (simp add: eval_defs)

text \<open>
  C7, amended. For a readable program and a list of at most 25 elements, each of which is
  a dictionary whose \<^verbatim>\<open>student_key\<close> is a string, and one of which has the empty string for
  it: the serializer fails that item; the loop records it under the empty key, as
  \<^verbatim>\<open>invalid-status\<close> when its status fails too and as \<^verbatim>\<open>internal-error\<close> otherwise, and
  goes on; \<open>post\<close> returns the result dictionary with 207, and the empty key is sent to
  one of these two tags.
\<close>

theorem empty_student_key_recorded:
  assumes prog: "FAKE_PROGRAM_DICT d pk = Some p" "metadata_readable (managing_organization p)"
    and len: "length xs \<le> 25"
    and keys: "\<forall>z\<in>set xs. \<exists>j. field z ''student_key'' = Some (JStr j)"
    and x: "x \<in> set xs" "field x ''student_key'' = Some (JStr [])"
  shows "\<not> is_valid statuses x \<and>
         (\<forall>r e. enroll statuses x (r, e) =
                   Inr (AList.update (StrKey [])
                          (if field x ''status'' \<notin> (\<lambda>s. Some (JStr s)) ` set statuses
                           then ''invalid-status'' else ''internal-error'') r, Some 207)) \<and>
         (\<exists>r. post statuses d pk (JArr xs) = Inr (Response (Dict r) (Some 207)) \<and>
              status_code (post statuses d pk (JArr xs)) = 207 \<and>
              (map_of r (StrKey []) = Some ''invalid-status'' \<or>
               map_of r (StrKey []) = Some ''internal-error''))"
proof -
  from string_keys_recorded[OF keys] have keys': "\<forall>z\<in>set xs. recorded_key z \<noteq> None" .
  from x(2) have invalid: "\<not> is_valid statuses x" by (auto simp: is_valid_iff)
  from x(2) have xk: "recorded_key x = Some (StrKey [])" by (simp add: recorded_key_string)
  have step: "\<forall>r e. enroll statuses x (r, e) =
      Inr (AList.update (StrKey [])
             (if field x ''status'' \<notin> (\<lambda>s. Some (JStr s)) ` set statuses
              then ''invalid-status'' else ''internal-error'') r, Some 207)"
    using enroll_invalid[OF invalid xk] by blast
  from enroll_all_completes[OF keys', of statuses "[]" None] obtain r e
    where run: "enroll_all statuses xs ([], None) = Inr (r, e)" by blast
  from x(1) xk have "\<exists>z\<in>set xs. recorded_key z = Some (StrKey [])" by blast
  from split_list_last_prop[OF this] obtain us z vs where split: "xs = us @ z # vs"
    and z: "recorded_key z = Some (StrKey [])"
    and last: "\<forall>v\<in>set vs. recorded_key v \<noteq> Some (StrKey [])"
    by blast
  from z have "field z ''student_key'' = Some (JStr [])" by (simp add: recorded_key_string)
  then have zi: "\<not> is_valid statuses z" by (auto simp: is_valid_iff)
  from run split have run': "enroll_all statuses (us @ z # vs) ([], None) = Inr (r, e)" by simp
  from invalid_item_partial[OF run' zi] have e: "e = Some 207" .
  from last_invalid_entry[OF run' zi z last]
  have entry: "map_of r (StrKey []) = Some ''invalid-status'' \<or>
               map_of r (StrKey []) = Some ''internal-error''"
    by (simp split: if_splits)
  from run e have "post statuses d pk (JArr xs) = Inr (Response (Dict r) (Some 207))"
    by (simp add: post_list[OF prog len])
  with invalid step entry show ?thesis by simp
qed

theorem empty_student_key_recorded_witness:
  "\<not> is_valid sample_statuses (submission '''' ''enrolled'') \<and>
   (\<exists>r. post sample_statuses sample_data ''open''
          (JArr [submission ''a'' ''enrolled'', submission '''' ''enrolled'']) =
          Inr (Response (Dict r) (Some 207)) \<and>
        (map_of r (StrKey []) = Some ''invalid-status'' \<or>
         map_of r (StrKey []) = Some ''internal-error'')) \<and>
   post sample_statuses sample_data ''open''
     (JArr [submission ''a'' ''enrolled'', submission '''' ''enrolled'']) =
     Inr (Response (Dict [(StrKey ''a'', ''enrolled''), (StrKey '''', ''internal-error'')]) (Some 207))"
proof -
  have len: "length [submission ''a'' ''enrolled'', submission '''' ''enrolled''] \<le> 25" by simp
  have keys: "\<forall>z\<in>set [submission ''a'' ''enrolled'', submission '''' ''enrolled''].
      \<exists>j. field z ''student_key'' = Some (JStr j)"
    by (simp add: field_submission)
  have x: "submission '''' ''enrolled'' \<in> set [submission ''a'' ''enrolled'', submission '''' ''enrolled'']"
    "field (submission '''' ''enrolled'') ''student_key'' = Some (JStr [])"
    by (simp_all add: submission_def)
  from empty_student_key_recorded[OF sample_open len keys x, of sample_statuses]
  have "\<not> is_valid sample_statuses (submission '''' ''enrolled'')"
    "\<exists>r. post sample_statuses sample_data ''open''
          (JArr [submission ''a'' ''enrolled'', submission '''' ''enrolled'']) =
          Inr (Response (Dict r) (Some 207)) \<and>
        (map_of r (StrKey []) = Some ''invalid-status'' \<or>
         map_of r (StrKey []) = Some ''internal-error'')"
    by blast+
  moreover have "post sample_statuses sample_data ''open''
     (JArr [submission ''a'' ''enrolled'', submission '''' ''enrolled'']) =
     Inr (Response (Dict [(StrKey ''a'', ''enrolled''), (StrKey '''', ''internal-error'')]) (Some 207))"
    by (simp add: eval_defs)
  ultimately show ?thesis by blast
qed

subsection \<open>The order of the structural checks\<close>

text \<open>
  C8. Whatever the body, an unknown \<^verbatim>\<open>program_key\<close> gives \<open>Http404\<close> (404); for a known
  program whose organization is not metadata-readable, whatever the body,
  \<open>PermissionDenied\<close> (403); for a readable program, a body that is not a list gives
  \<open>ValidationError\<close>, whatever its size; and a list of more than 25 elements gives 413,
  whatever the elements. So the four checks come in this order and before any element is
  validated. The check of the body's shape is answered with 400, where the docstring of
  the view and the specification say 422.
\<close>

theorem structural_checks_in_order:
  "(FAKE_PROGRAM_DICT d pk = None \<longrightarrow>
      post statuses d pk data = Inl Http404 \<and> status_code (post statuses d pk data) = 404) \<and>
   (\<forall>p. FAKE_PROGRAM_DICT d pk = Some p \<and> \<not> metadata_readable (managing_organization p) \<longrightarrow>
      post statuses d pk data = Inl PermissionDenied \<and> status_code (post statuses d pk data) = 403) \<and>
   (\<forall>p. FAKE_PROGRAM_DICT d pk = Some p \<and> metadata_readable (managing_organization p) \<and>
        (\<nexists>xs. data = JArr xs) \<longrightarrow>
      post statuses d pk data = Inl ValidationError \<and> status_code (post statuses d pk data) = 400) \<and>
   (\<forall>p xs. FAKE_PROGRAM_DICT d pk = Some p \<and> metadata_readable (managing_organization p) \<and>
        data = JArr xs \<and> length xs > 25 \<longrightarrow>
      post statuses d pk data = Inr (Response (Text ''enrollement limit 25'') (Some 413)) \<and>
      status_code (post statuses d pk data) = 413)"
  by (cases data) (auto simp: post_def program_def http_defs)

theorem structural_checks_in_order_witness:
  "status_code (post sample_statuses sample_data ''unknown'' (JArr (replicate 26 (JObj [])))) = 404 \<and>
   status_code (post sample_statuses sample_data ''hidden'' (submission ''a'' ''enrolled'')) = 403 \<and>
   post sample_statuses sample_data ''open'' (JStr (replicate 26 CHR ''x'')) = Inl ValidationError \<and>
   status_code (post sample_statuses sample_data ''open'' (JStr (replicate 26 CHR ''x''))) = 400 \<and>
   status_code (post sample_statuses sample_data ''open'' (JArr (replicate 26 (JObj [])))) = 413"
proof -
  have "FAKE_PROGRAM_DICT sample_data ''unknown'' = None" by (simp add: sample_defs)
  with structural_checks_in_order[of sample_data "''unknown''" sample_statuses
      "JArr (replicate 26 (JObj []))"]
  have 1: "status_code (post sample_statuses sample_data ''unknown''
      (JArr (replicate 26 (JObj [])))) = 404"
    by blast
  have "FAKE_PROGRAM_DICT sample_data ''hidden'' = Some hidden_program \<and>
      \<not> metadata_readable (managing_organization hidden_program)"
    by (simp add: sample_defs)
  with structural_checks_in_order[of sample_data "''hidden''" sample_statuses
      "submission ''a'' ''enrolled''"]
  have 2: "status_code (post sample_statuses sample_data ''hidden''
      (submission ''a'' ''enrolled'')) = 403"
    by blast
  have "FAKE_PROGRAM_DICT sample_data ''open'' = Some open_program \<and>
      metadata_readable (managing_organization open_program) \<and>
      (\<nexists>xs. JStr (replicate 26 CHR ''x'') = JArr xs)"
    by (simp add: sample_defs)
  with structural_checks_in_order[of sample_data "''open''" sample_statuses
      "JStr (replicate 26 CHR ''x'')"]
  have 3: "post sample_statuses sample_data ''open'' (JStr (replicate 26 CHR ''x'')) =
      Inl ValidationError \<and>
      status_code (post sample_statuses sample_data ''open'' (JStr (replicate 26 CHR ''x''))) = 400"
    by blast
  have "FAKE_PROGRAM_DICT sample_data ''open'' = Some open_program \<and>
      metadata_readable (managing_organization open_program) \<and>
      JArr (replicate 26 (JObj [])) = JArr (replicate 26 (JObj [])) \<and>
      length (replicate 26 (JObj [])) > 25"
    by (simp add: sample_defs)
  with structural_checks_in_order[of sample_data "''open''" sample_statuses
      "JArr (replicate 26 (JObj []))"]
  have 4: "status_code (post sample_statuses sample_data ''open''
      (JArr (replicate 26 (JObj [])))) = 413"
    by blast
  from 1 2 3 4 show ?thesis by simp
qed

subsection \<open>Listing the programs of an organization\<close>

text \<open>
  C9. \<open>get_queryset\<close> raises \<open>PermissionDenied\<close> (403) when the query has no \<^verbatim>\<open>org\<close> or an
  empty one, \<open>Http404\<close> (404) when the \<^verbatim>\<open>org\<close> is not a key of the organization table, and
  \<open>PermissionDenied\<close> (403) when the organization is found but is not metadata-readable.
\<close>

theorem org_listing_errors:
  "(GET ''org'' = None \<or> GET ''org'' = Some [] \<longrightarrow>
      get_queryset d GET = Inl PermissionDenied \<and> list_status d GET = 403) \<and>
   (\<forall>k. GET ''org'' = Some k \<and> k \<noteq> [] \<and> FAKE_ORG_DICT d k = None \<longrightarrow>
      get_queryset d GET = Inl Http404 \<and> list_status d GET = 404) \<and>
   (\<forall>k org. GET ''org'' = Some k \<and> k \<noteq> [] \<and> FAKE_ORG_DICT d k = Some org \<and> \<not> metadata_readable org \<longrightarrow>
      get_queryset d GET = Inl PermissionDenied \<and> list_status d GET = 403)"
  by (auto simp: get_queryset_def list_status_def)

theorem org_listing_errors_witness:
  "list_status sample_data Map.empty = 403 \<and>
   list_status sample_data [''org'' \<mapsto> ''''] = 403 \<and>
   list_status sample_data [''org'' \<mapsto> ''unknown_org''] = 404 \<and>
   list_status sample_data [''org'' \<mapsto> ''brianchester-college''] = 403"
proof -
  have 1: "list_status sample_data Map.empty = 403"
    using org_listing_errors[of Map.empty sample_data] by simp
  have 2: "list_status sample_data [''org'' \<mapsto> ''''] = 403"
    using org_listing_errors[of "[''org'' \<mapsto> '''']" sample_data] by simp
  have "FAKE_ORG_DICT sample_data ''unknown_org'' = None" by (simp add: sample_defs)
  then have 3: "list_status sample_data [''org'' \<mapsto> ''unknown_org''] = 404"
    using org_listing_errors[of "[''org'' \<mapsto> ''unknown_org'']" sample_data] by simp
  have "FAKE_ORG_DICT sample_data ''brianchester-college'' = Some hidden_org"
    "\<not> metadata_readable hidden_org" by (simp_all add: sample_defs)
  then have 4: "list_status sample_data [''org'' \<mapsto> ''brianchester-college''] = 403"
    using org_listing_errors[of "[''org'' \<mapsto> ''brianchester-college'']" sample_data] by simp
  from 1 2 3 4 show ?thesis by simp
qed

subsection \<open>An invalid submission under a key already recorded\<close>

text \<open>
  C10. Let \<open>post\<close> on the elements \<open>pre\<close> return the result dictionary \<open>r\<close>, and let \<open>x\<close>
  be an invalid element whose \<^verbatim>\<open>student_key\<close> is a string and a key of \<open>r\<close>. Then \<open>post\<close> on
  \<open>pre\<close> followed by \<open>x\<close> returns, with 207, \<open>r\<close> with the entry of that key replaced by
  \<^verbatim>\<open>invalid-status\<close> when the status of \<open>x\<close> is absent or outside the enumeration, and by
  \<^verbatim>\<open>internal-error\<close> otherwise; never by \<^verbatim>\<open>duplicated\<close>. And a pass of the loop that puts
  \<^verbatim>\<open>duplicated\<close> under a key where it was not before is a pass over a valid submission of
  that key.
\<close>

theorem invalid_item_overwrites_earlier_entry:
  assumes before: "post statuses d pk (JArr pre) = Inr (Response (Dict r) e)"
    and len: "length pre < 25"
    and recorded: "StrKey k \<in> fst ` set r"
    and key: "field x ''student_key'' = Some (JStr k)"
    and invalid: "\<not> is_valid statuses x"
  shows "post statuses d pk (JArr (pre @ [x])) =
           Inr (Response (Dict (AList.update (StrKey k)
                  (if field x ''status'' \<notin> (\<lambda>s. Some (JStr s)) ` set statuses
                   then ''invalid-status'' else ''internal-error'') r))
                         (Some 207)) \<and>
         map_of (AList.update (StrKey k)
                  (if field x ''status'' \<notin> (\<lambda>s. Some (JStr s)) ` set statuses
                   then ''invalid-status'' else ''internal-error'') r) (StrKey k) =
           Some (if field x ''status'' \<notin> (\<lambda>s. Some (JStr s)) ` set statuses
                 then ''invalid-status'' else ''internal-error'') \<and>
         map_of (AList.update (StrKey k)
                  (if field x ''status'' \<notin> (\<lambda>s. Some (JStr s)) ` set statuses
                   then ''invalid-status'' else ''internal-error'') r) (StrKey k) \<noteq>
           Some ''duplicated'' \<and>
         (\<forall>y r1 e1 r2 e2 j. enroll statuses y (r1, e1) = Inr (r2, e2) \<and>
              map_of r2 j = Some ''duplicated'' \<and> map_of r1 j \<noteq> Some ''duplicated'' \<longrightarrow>
              is_valid statuses y \<and>
              (\<exists>k'. field y ''student_key'' = Some (JStr k') \<and> j = StrKey k'))"
proof -
  from post_Dict_run[OF before] obtain p where p: "FAKE_PROGRAM_DICT d pk = Some p"
    "metadata_readable (managing_organization p)"
    and run: "enroll_all statuses pre ([], None) = Inr (r, e)" by blast
  from len have len': "length (pre @ [x]) \<le> 25" by simp
  from key have rk: "recorded_key x = Some (StrKey k)" by (simp add: recorded_key_string)
  let ?tag = "if field x ''status'' \<notin> (\<lambda>s. Some (JStr s)) ` set statuses
              then ''invalid-status'' else ''internal-error''"
  from enroll_invalid[OF invalid rk, of r e]
  have "enroll statuses x (r, e) = Inr (AList.update (StrKey k) ?tag r, Some 207)" by simp
  with run have "enroll_all statuses (pre @ [x]) ([], None) =
      Inr (AList.update (StrKey k) ?tag r, Some 207)"
    by (simp add: enroll_all_append)
  then have 1: "post statuses d pk (JArr (pre @ [x])) =
      Inr (Response (Dict (AList.update (StrKey k) ?tag r)) (Some 207))"
    by (simp add: post_list[OF p len'])
  have 2: "map_of (AList.update (StrKey k) ?tag r) (StrKey k) = Some ?tag"
    by (simp add: update_conv')
  have 3: "map_of (AList.update (StrKey k) ?tag r) (StrKey k) \<noteq> Some ''duplicated''"
    by (simp add: update_conv')
  have 4: "\<forall>y r1 e1 r2 e2 j. enroll statuses y (r1, e1) = Inr (r2, e2) \<and>
              map_of r2 j = Some ''duplicated'' \<and> map_of r1 j \<noteq> Some ''duplicated'' \<longrightarrow>
              is_valid statuses y \<and>
              (\<exists>k'. field y ''student_key'' = Some (JStr k') \<and> j = StrKey k')"
  proof (intro allI impI)
    fix y r1 e1 r2 e2 j
    assume a: "enroll statuses y (r1, e1) = Inr (r2, e2) \<and>
              map_of r2 j = Some ''duplicated'' \<and> map_of r1 j \<noteq> Some ''duplicated''"
    with enroll_duplicated_only_valid[of statuses y r1 e1 r2 e2 j]
    have v: "is_valid statuses y" and rj: "recorded_key y = Some j" by blast+
    from v obtain k' where k': "field y ''student_key'' = Some (JStr k')"
      by (auto simp: is_valid_iff)
    with rj have "j = StrKey k'" by (simp flip: recorded_key_string)
    with v k' show "is_valid statuses y \<and>
        (\<exists>k'. field y ''student_key'' = Some (JStr k') \<and> j = StrKey k')"
      by blast
  qed
  from 1 2 3 4 show ?thesis by blast
qed

theorem invalid_item_overwrites_earlier_entry_witness:
  "post sample_statuses sample_data ''open'' (JArr [submission ''a'' ''enrolled'']) =
     Inr (Response (Dict [(StrKey ''a'', ''enrolled'')]) None) \<and>
   post sample_statuses sample_data ''open''
     (JArr [submission ''a'' ''enrolled'', submission ''a'' ''bogus'']) =
     Inr (Response (Dict [(StrKey ''a'', ''invalid-status'')]) (Some 207)) \<and>
   post sample_statuses sample_data ''open''
     (JArr [submission '''' ''bogus'', submission '''' ''enrolled'']) =
     Inr (Response (Dict [(StrKey '''', ''internal-error'')]) (Some 207))"
proof -
  have before: "post sample_statuses sample_data ''open'' (JArr [submission ''a'' ''enrolled'']) =
     Inr (Response (Dict [(StrKey ''a'', ''enrolled'')]) None)"
    by (simp add: eval_defs)
  have len: "length [submission ''a'' ''enrolled''] < 25" by simp
  have recorded: "StrKey ''a'' \<in> fst ` set [(StrKey ''a'', ''enrolled'')]" by simp
  have key: "field (submission ''a'' ''bogus'') ''student_key'' = Some (JStr ''a'')"
    by (rule field_submission)
  have invalid: "\<not> is_valid sample_statuses (submission ''a'' ''bogus'')" by (simp add: eval_defs)
  from invalid_item_overwrites_earlier_entry[OF before len recorded key invalid, THEN conjunct1]
  have 1: "post sample_statuses sample_data ''open''
     (JArr [submission ''a'' ''enrolled'', submission ''a'' ''bogus'']) =
     Inr (Response (Dict [(StrKey ''a'', ''invalid-status'')]) (Some 207))"
    by (simp add: sample_defs)
  have before': "post sample_statuses sample_data ''open'' (JArr [submission '''' ''bogus'']) =
     Inr (Response (Dict [(StrKey '''', ''invalid-status'')]) (Some 207))"
    by (simp add: eval_defs)
  have len': "length [submission '''' ''bogus''] < 25" by simp
  have recorded': "StrKey '''' \<in> fst ` set [(StrKey '''', ''invalid-status'')]" by simp
  have key': "field (submission '''' ''enrolled'') ''student_key'' = Some (JStr '''')"
    by (rule field_submission)
  have invalid': "\<not> is_valid sample_statuses (submission '''' ''enrolled'')" by (simp add: eval_defs)
  from invalid_item_overwrites_earlier_entry[OF before' len' recorded' key' invalid', THEN conjunct1]
  have 2: "post sample_statuses sample_data ''open''
     (JArr [submission '''' ''bogus'', submission '''' ''enrolled'']) =
     Inr (Response (Dict [(StrKey '''', ''internal-error'')]) (Some 207))"
    by (simp add: sample_defs)
  from before 1 2 show ?thesis by simp
qed

end
